theory Spec2Isabelle
  imports Complex_Main "HOL-Library.Multiset"
begin

section \<open>Numbers of the script\<close>

text \<open>
  The script \<^verbatim>\<open>script.js\<close> computes with IEEE doubles. A number is \<^verbatim>\<open>NaN\<close> or a
  finite double, which is a real; the infinities are outside this embedding.
\<close>

datatype jsnum = NaN | Num real

text \<open>
  What the engine contributes to the arithmetic. \<open>fl\<close> rounds the exact result of an
  operation, or a decimal literal, to the double that stands for it. \<^verbatim>\<open>Math.sin\<close>,
  \<^verbatim>\<open>Math.cos\<close> and \<^verbatim>\<open>Math.atan2\<close> are the approximations the engine ships. Nothing
  is assumed of them: every definition below takes the platform as its first argument.
\<close>

record platform =
  fl :: "real \<Rightarrow> real"
  Math_sin :: "real \<Rightarrow> real"
  Math_cos :: "real \<Rightarrow> real"
  Math_atan2 :: "real \<Rightarrow> real \<Rightarrow> real"

text \<open>The operators \<^verbatim>\<open>+\<close>, \<^verbatim>\<open>-\<close>, \<^verbatim>\<open>*\<close>: \<^verbatim>\<open>NaN\<close> if an operand is, else the rounded result.\<close>

fun js_add :: "platform \<Rightarrow> jsnum \<Rightarrow> jsnum \<Rightarrow> jsnum" where
  "js_add M (Num x) (Num y) = Num (fl M (x + y))"
| "js_add M _ _ = NaN"

fun js_sub :: "platform \<Rightarrow> jsnum \<Rightarrow> jsnum \<Rightarrow> jsnum" where
  "js_sub M (Num x) (Num y) = Num (fl M (x - y))"
| "js_sub M _ _ = NaN"

fun js_mul :: "platform \<Rightarrow> jsnum \<Rightarrow> jsnum \<Rightarrow> jsnum" where
  "js_mul M (Num x) (Num y) = Num (fl M (x * y))"
| "js_mul M _ _ = NaN"

text \<open>
  The operator \<^verbatim>\<open>/\<close>. The script divides by the literals 180 and 2 alone; a division
  by zero, whose result would be an infinity or \<^verbatim>\<open>NaN\<close>, does not occur in it.
\<close>

fun js_div :: "platform \<Rightarrow> jsnum \<Rightarrow> jsnum \<Rightarrow> jsnum" where
  "js_div M (Num x) (Num y) = (if y = 0 then NaN else Num (fl M (x / y)))"
| "js_div M _ _ = NaN"

text \<open>The operator \<^verbatim>\<open><\<close>: false as soon as an operand is \<^verbatim>\<open>NaN\<close>.\<close>

fun js_less :: "jsnum \<Rightarrow> jsnum \<Rightarrow> bool" where
  "js_less (Num x) (Num y) = (x < y)"
| "js_less _ _ = False"

text \<open>\<^verbatim>\<open>Math.sqrt\<close> is \<^verbatim>\<open>NaN\<close> below zero.\<close>

fun js_sqrt :: "platform \<Rightarrow> jsnum \<Rightarrow> jsnum" where
  "js_sqrt M (Num x) = (if x < 0 then NaN else Num (fl M (sqrt x)))"
| "js_sqrt M NaN = NaN"

fun js_sin :: "platform \<Rightarrow> jsnum \<Rightarrow> jsnum" where
  "js_sin M (Num x) = Num (Math_sin M x)"
| "js_sin M NaN = NaN"

fun js_cos :: "platform \<Rightarrow> jsnum \<Rightarrow> jsnum" where
  "js_cos M (Num x) = Num (Math_cos M x)"
| "js_cos M NaN = NaN"

fun js_atan2 :: "platform \<Rightarrow> jsnum \<Rightarrow> jsnum \<Rightarrow> jsnum" where
  "js_atan2 M (Num y) (Num x) = Num (Math_atan2 M y x)"
| "js_atan2 M _ _ = NaN"

text \<open>\<^verbatim>\<open>Math.round\<close> is exact: the nearest integer, a half rounded upwards.\<close>

fun js_round :: "jsnum \<Rightarrow> jsnum" where
  "js_round (Num x) = Num (of_int (round x))"
| "js_round NaN = NaN"

text \<open>\<^verbatim>\<open>Math.PI\<close> is the double that stands for \<open>pi\<close>.\<close>

definition Math_PI :: "platform \<Rightarrow> jsnum" where
  "Math_PI M = Num (fl M pi)"

text \<open>A number is truthy unless it is \<^verbatim>\<open>NaN\<close> or zero; \<^verbatim>\<open>!weight\<close> holds for these two alone.\<close>

fun truthy_num :: "jsnum \<Rightarrow> bool" where
  "truthy_num NaN = False"
| "truthy_num (Num x) = (x \<noteq> 0)"

text \<open>A string is truthy unless it is empty.\<close>

definition truthy_str :: "string \<Rightarrow> bool" where
  "truthy_str s = (s \<noteq> [])"

text \<open>
  A property read on an object literal finds the object's own entry, or a member
  inherited from \<^verbatim>\<open>Object.prototype\<close>, or \<^verbatim>\<open>undefined\<close>.
\<close>

datatype 'a js_lookup = Own 'a | Inherited | Undefined

definition objectPrototypeKeys :: "string list" where
  "objectPrototypeKeys =
     [''constructor'', ''__defineGetter__'', ''__defineSetter__'', ''hasOwnProperty'',
      ''__lookupGetter__'', ''__lookupSetter__'', ''isPrototypeOf'',
      ''propertyIsEnumerable'', ''toString'', ''valueOf'', ''__proto__'',
      ''toLocaleString'']"

datatype error = TypeError

text \<open>
  The objects built at lines 59--67; \<^verbatim>\<open>id\<close> and \<^verbatim>\<open>type\<close> are \<open>loc_id\<close> and \<open>loc_type\<close>.
  The filter of line 68 keeps an object only when both coordinates are numbers.
\<close>

record location =
  name :: string
  fullName :: string
  lat :: real
  lng :: real
  loc_id :: int
  loc_type :: string
  postcode :: "string option"

section \<open>Distance calculator (lines 79--88)\<close>

text \<open>The constant \<^verbatim>\<open>a\<close> of lines 83--85, with \<^verbatim>\<open>dLat\<close> and \<^verbatim>\<open>dLng\<close> of lines 81--82.\<close>

definition haversine_a :: "platform \<Rightarrow> real \<Rightarrow> real \<Rightarrow> real \<Rightarrow> real \<Rightarrow> jsnum" where
  "haversine_a M lat1 lng1 lat2 lng2 =
     (let dLat = js_div M (js_mul M (js_sub M (Num lat2) (Num lat1)) (Math_PI M)) (Num 180);
          dLng = js_div M (js_mul M (js_sub M (Num lng2) (Num lng1)) (Math_PI M)) (Num 180)
      in js_add M
           (js_mul M (js_sin M (js_div M dLat (Num 2))) (js_sin M (js_div M dLat (Num 2))))
           (js_mul M
              (js_mul M
                 (js_mul M
                    (js_cos M (js_div M (js_mul M (Num lat1) (Math_PI M)) (Num 180)))
                    (js_cos M (js_div M (js_mul M (Num lat2) (Math_PI M)) (Num 180))))
                 (js_sin M (js_div M dLng (Num 2))))
              (js_sin M (js_div M dLng (Num 2)))))"

text \<open>Lines 80 and 86--87. The result is an integer, or \<^verbatim>\<open>NaN\<close>.\<close>

definition calculateDistance :: "platform \<Rightarrow> real \<Rightarrow> real \<Rightarrow> real \<Rightarrow> real \<Rightarrow> jsnum" where
  "calculateDistance M lat1 lng1 lat2 lng2 =
     (let R = Num 6371;
          a = haversine_a M lat1 lng1 lat2 lng2;
          c = js_mul M (Num 2) (js_atan2 M (js_sqrt M a) (js_sqrt M (js_sub M (Num 1) a)))
      in js_round (js_mul M R c))"

text \<open>
  The rounded angles inside \<^verbatim>\<open>a\<close>: half of \<^verbatim>\<open>dLat\<close> or \<^verbatim>\<open>dLng\<close>, and a latitude in
  radians.
\<close>

definition half_rad :: "platform \<Rightarrow> real \<Rightarrow> real \<Rightarrow> real" where
  "half_rad M x y = fl M (fl M (fl M (fl M (y - x) * fl M pi) / 180) / 2)"

definition rad :: "platform \<Rightarrow> real \<Rightarrow> real" where
  "rad M x = fl M (fl M (x * fl M pi) / 180)"

subsection \<open>The distance in the words of the specification\<close>

text \<open>
  The great-circle distance in kilometres by the haversine formula, with Earth radius
  6371 km, rounded to the nearest integer.
\<close>

definition hav :: "real \<Rightarrow> real \<Rightarrow> real \<Rightarrow> real \<Rightarrow> real" where
  "hav lat1 lng1 lat2 lng2 =
     (sin ((lat2 - lat1) * pi / 180 / 2))\<^sup>2 +
     cos (lat1 * pi / 180) * cos (lat2 * pi / 180) * (sin ((lng2 - lng1) * pi / 180 / 2))\<^sup>2"

definition haversine_km :: "real \<Rightarrow> real \<Rightarrow> real \<Rightarrow> real \<Rightarrow> int" where
  "haversine_km lat1 lng1 lat2 lng2 = round (2 * 6371 * arcsin (sqrt (hav lat1 lng1 lat2 lng2)))"

subsection \<open>The platform of exact real arithmetic\<close>

text \<open>\<^verbatim>\<open>Math.atan2(y, x)\<close> on reals.\<close>

definition atan2 :: "real \<Rightarrow> real \<Rightarrow> real" where
  "atan2 y x =
     (if 0 < x then arctan (y / x)
      else if x < 0 then (if 0 \<le> y then arctan (y / x) + pi else arctan (y / x) - pi)
      else if 0 < y then pi / 2
      else if y < 0 then - (pi / 2)
      else 0)"

text \<open>No rounding, and the functions themselves in place of their approximations.\<close>

definition exact_math :: platform where
  "exact_math = \<lparr>fl = id, Math_sin = sin, Math_cos = cos, Math_atan2 = atan2\<rparr>"

section \<open>Rate table and cost calculator (lines 156--176)\<close>

record rates =
  baseCost :: real
  perKm :: real
  perPound :: real
  days :: "int \<times> int"

text \<open>The table of line 156, each decimal literal rounded to its double.\<close>

definition shippingRates :: "platform \<Rightarrow> string \<Rightarrow> rates js_lookup" where
  "shippingRates M k =
     (if k = ''standard'' then
        Own \<lparr>baseCost = 18, perKm = fl M 0.65, perPound = fl M 0.15, days = (3, 5)\<rparr>
      else if k = ''express'' then
        Own \<lparr>baseCost = 42, perKm = fl M 0.95, perPound = fl M 0.22, days = (1, 2)\<rparr>
      else if k = ''overnight'' then
        Own \<lparr>baseCost = 85, perKm = fl M 1.45, perPound = fl M 0.40, days = (1, 1)\<rparr>
      else if k \<in> set objectPrototypeKeys then Inherited
      else Undefined)"

record estimate =
  cost :: jsnum
  distance :: jsnum
  deliveryDays :: "(int \<times> int) option"

text \<open>
  Reading \<^verbatim>\<open>rates.perKm\<close> on \<^verbatim>\<open>undefined\<close> throws; on an inherited member it gives
  \<^verbatim>\<open>undefined\<close>, so the products and the sum are \<^verbatim>\<open>NaN\<close> and \<^verbatim>\<open>rates.days\<close> is
  \<^verbatim>\<open>undefined\<close> (\<open>None\<close>).
\<close>

definition calculateShippingCost ::
    "platform \<Rightarrow> location \<Rightarrow> location \<Rightarrow> real \<Rightarrow> string \<Rightarrow> error + estimate" where
  "calculateShippingCost M originLocation destinationLocation weight shippingType =
     (let distance = calculateDistance M (lat originLocation) (lng originLocation)
                       (lat destinationLocation) (lng destinationLocation)
      in case shippingRates M shippingType of
           Undefined \<Rightarrow> Inl TypeError
         | Inherited \<Rightarrow> Inr \<lparr>cost = NaN, distance = distance, deliveryDays = None\<rparr>
         | Own rates \<Rightarrow>
             (let distanceCost = js_mul M distance (Num (perKm rates));
                  weightCost = js_mul M (Num weight) (Num (perPound rates));
                  totalCost = js_add M (js_add M (Num (baseCost rates)) distanceCost) weightCost
              in Inr \<lparr>cost = totalCost, distance = distance,
                      deliveryDays = Some (days rates)\<rparr>))"

section \<open>Route optimizer (lines 217--246)\<close>

text \<open>The distance between two locations, as every call site of the optimizer computes it.\<close>

definition legDistance :: "platform \<Rightarrow> location \<Rightarrow> location \<Rightarrow> jsnum" where
  "legDistance M p q = calculateDistance M (lat p) (lng p) (lat q) (lng q)"

text \<open>\<^verbatim>\<open>remaining.splice(i, 1)\<close>: an index past the end removes nothing.\<close>

definition splice1 :: "'a list \<Rightarrow> nat \<Rightarrow> 'a list" where
  "splice1 xs i = take i xs @ drop (Suc i) xs"

text \<open>The \<^verbatim>\<open>for\<close> loop of lines 230--237, from index \<open>i\<close> on.\<close>

function nearest_scan ::
    "platform \<Rightarrow> location \<Rightarrow> location list \<Rightarrow> nat \<Rightarrow> location \<times> jsnum \<times> nat \<Rightarrow>
     location \<times> jsnum \<times> nat" where
  "nearest_scan M current remaining i (nearest, nearestDistance, nearestIndex) =
     (if i < length remaining then
        (let distance = legDistance M current (remaining ! i)
         in if js_less distance nearestDistance
            then nearest_scan M current remaining (i + 1) (remaining ! i, distance, i)
            else nearest_scan M current remaining (i + 1)
                   (nearest, nearestDistance, nearestIndex))
      else (nearest, nearestDistance, nearestIndex))"
  by pat_completeness auto
termination
  by (relation "measure (\<lambda>(M, current, remaining, i, s). length remaining - i)") auto

declare nearest_scan.simps [simp del]

lemma nearest_scan_index:
  "nearest_scan M current remaining i (n, d, k) = (n', d', k') \<Longrightarrow>
   k < length remaining \<Longrightarrow> k' < length remaining"
proof (induction M current remaining i "(n, d, k)" arbitrary: n d k
       rule: nearest_scan.induct)
  case (1 M current remaining i nearest nearestDistance nearestIndex)
  then show ?case
    by (simp add: nearest_scan.simps [of M current remaining i] Let_def split: if_splits)
qed

text \<open>The \<^verbatim>\<open>while\<close> loop of lines 225--243.\<close>

function route_loop ::
    "platform \<Rightarrow> location list \<Rightarrow> location list \<Rightarrow> location \<Rightarrow> jsnum \<Rightarrow>
     location list \<times> jsnum" where
  "route_loop M route remaining current totalDistance =
     (if length remaining > 0 then
        (case nearest_scan M current remaining 1
                (remaining ! 0, legDistance M current (remaining ! 0), 0) of
           (nearest, nearestDistance, nearestIndex) \<Rightarrow>
             route_loop M (route @ [nearest]) (splice1 remaining nearestIndex) nearest
               (js_add M totalDistance nearestDistance))
      else (route, totalDistance))"
  by pat_completeness auto
termination
proof (relation "measure (\<lambda>(M, route, remaining, current, totalDistance). length remaining)")
  show "wf (measure (\<lambda>(M, route, remaining, current, totalDistance). length remaining))"
    by simp
next
  fix M :: platform and route remaining :: "location list" and current :: location
    and totalDistance :: jsnum and x :: location and y :: "jsnum \<times> nat"
    and xa :: jsnum and ya :: nat
  assume nonempty: "0 < length remaining"
    and scan: "(x, y) = nearest_scan M current remaining 1
                 (remaining ! 0, legDistance M current (remaining ! 0), 0)"
    and split: "(xa, ya) = y"
  from scan split have "nearest_scan M current remaining 1
      (remaining ! 0, legDistance M current (remaining ! 0), 0) = (x, xa, ya)"
    by simp
  from nearest_scan_index [OF this] nonempty have "ya < length remaining"
    by simp
  then show "((M, route @ [x], splice1 remaining ya, x, js_add M totalDistance xa),
              M, route, remaining, current, totalDistance)
             \<in> measure (\<lambda>(M, route, remaining, current, totalDistance). length remaining)"
    by (simp add: splice1_def)
qed

declare route_loop.simps [simp del]

record route_result =
  route :: "location list"
  totalDistance :: jsnum

definition optimizeRoute :: "platform \<Rightarrow> location \<Rightarrow> location list \<Rightarrow> route_result" where
  "optimizeRoute M start stops =
     (if length stops = 0 then \<lparr>route = [start], totalDistance = Num 0\<rparr>
      else (case route_loop M [start] stops start (Num 0) of
              (r, t) \<Rightarrow> \<lparr>route = r, totalDistance = t\<rparr>))"

text \<open>
  The sum of the leg distances along a route, added leg by leg from the first, on top
  of what has been accumulated so far.
\<close>

fun sum_legs :: "platform \<Rightarrow> jsnum \<Rightarrow> location list \<Rightarrow> jsnum" where
  "sum_legs M acc (p # q # ps) = sum_legs M (js_add M acc (legDistance M p q)) (q # ps)"
| "sum_legs M acc ps = acc"

definition path_length :: "platform \<Rightarrow> location list \<Rightarrow> jsnum" where
  "path_length M r = sum_legs M (Num 0) r"

subsection \<open>The ordering in the words of the specification\<close>

text \<open>The number a leg distance is, when it is one.\<close>

definition km :: "platform \<Rightarrow> location \<Rightarrow> location \<Rightarrow> real" where
  "km M p q = (case legDistance M p q of Num x \<Rightarrow> x | NaN \<Rightarrow> 0)"

text \<open>
  Among the remaining stops, the one at minimum distance from the current position; of
  several at that distance, the first in the list.
\<close>

definition first_nearest_index :: "platform \<Rightarrow> location \<Rightarrow> location list \<Rightarrow> nat" where
  "first_nearest_index M current remaining =
     length (takeWhile (\<lambda>s. km M current s \<noteq> Min (set (map (km M current) remaining)))
               remaining)"

lemma first_nearest_index_less:
  assumes "remaining \<noteq> []"
  shows "first_nearest_index M current remaining < length remaining"
proof -
  let ?P = "\<lambda>s. km M current s \<noteq> Min (set (map (km M current) remaining))"
  have "Min (set (map (km M current) remaining)) \<in> set (map (km M current) remaining)"
    using assms by (intro Min_in) simp_all
  then obtain s where "s \<in> set remaining" and "\<not> ?P s"
    by auto
  then have "takeWhile ?P remaining \<noteq> remaining"
    by auto
  then have "length (takeWhile ?P remaining) \<noteq> length remaining"
    using takeWhile_eq_take [of ?P remaining] by auto
  moreover have "length (takeWhile ?P remaining) \<le> length remaining"
    by (rule length_takeWhile_le)
  ultimately show ?thesis
    unfolding first_nearest_index_def by linarith
qed

function nearest_neighbour_order ::
    "platform \<Rightarrow> location \<Rightarrow> location list \<Rightarrow> location list" where
  "nearest_neighbour_order M current remaining =
     (if remaining = [] then []
      else (let i = first_nearest_index M current remaining
            in remaining ! i #
               nearest_neighbour_order M (remaining ! i) (splice1 remaining i)))"
  by pat_completeness auto
termination
proof (relation "measure (\<lambda>(M, current, remaining). length remaining)")
  show "wf (measure (\<lambda>(M, current, remaining). length remaining))"
    by simp
next
  fix M :: platform and current :: location and remaining :: "location list" and x :: nat
  assume "remaining \<noteq> []" and "x = first_nearest_index M current remaining"
  then have "x < length remaining"
    by (simp add: first_nearest_index_less)
  then show "((M, remaining ! x, splice1 remaining x), M, current, remaining)
             \<in> measure (\<lambda>(M, current, remaining). length remaining)"
    by (simp add: splice1_def)
qed

declare nearest_neighbour_order.simps [simp del]

text \<open>
  The invariant of the scan: among the stops at indices below \<open>i\<close>, the one at index \<open>k\<close>
  is at minimum distance, and every stop before it is strictly farther.
\<close>

definition first_min_upto ::
    "platform \<Rightarrow> location \<Rightarrow> location list \<Rightarrow> nat \<Rightarrow> nat \<Rightarrow> bool" where
  "first_min_upto M current remaining i k =
     (k < i \<and> (\<forall>j<i. km M current (remaining ! k) \<le> km M current (remaining ! j)) \<and>
      (\<forall>j<k. km M current (remaining ! k) < km M current (remaining ! j)))"

text \<open>Every leg from a location of \<open>ps\<close> to a location of \<open>qs\<close> is a number.\<close>

definition numeric_legs :: "platform \<Rightarrow> location list \<Rightarrow> location list \<Rightarrow> bool" where
  "numeric_legs M ps qs = (\<forall>p\<in>set ps. \<forall>q\<in>set qs. legDistance M p q \<noteq> NaN)"

section \<open>Postal code matcher (lines 11, 27--29)\<close>

text \<open>
  The pattern \<^verbatim>\<open>/^[A-Za-z]\d[A-Za-z][ -]?\d[A-Za-z]\d$/\<close> is a sequence of character
  classes, one of them optional, anchored at both ends.
\<close>

datatype cls = Letter | Digit | Separator

datatype atom = One cls | Optional cls

fun in_class :: "cls \<Rightarrow> char \<Rightarrow> bool" where
  "in_class Letter c =
     ((65 \<le> (of_char c :: nat) \<and> (of_char c :: nat) \<le> 90) \<or>
      (97 \<le> (of_char c :: nat) \<and> (of_char c :: nat) \<le> 122))"
| "in_class Digit c = (48 \<le> (of_char c :: nat) \<and> (of_char c :: nat) \<le> 57)"
| "in_class Separator c = (c = CHR '' '' \<or> c = CHR ''-'')"

definition postalCodeRegex :: "atom list" where
  "postalCodeRegex =
     [One Letter, One Digit, One Letter, Optional Separator, One Digit, One Letter, One Digit]"

text \<open>\<^verbatim>\<open>regex.test\<close> for such a pattern: every atom in turn, then the end of the input.\<close>

fun regex_test :: "atom list \<Rightarrow> string \<Rightarrow> bool" where
  "regex_test [] s = (s = [])"
| "regex_test (One k # r) [] = False"
| "regex_test (One k # r) (c # cs) = (in_class k c \<and> regex_test r cs)"
| "regex_test (Optional k # r) [] = regex_test r []"
| "regex_test (Optional k # r) (c # cs) =
     ((in_class k c \<and> regex_test r cs) \<or> regex_test r (c # cs))"

text \<open>
  The class \<^verbatim>\<open>\s\<close> on the characters of \<^typ>\<open>char\<close>: tab, line feed, vertical tab, form
  feed, carriage return, space and the no-break space.
\<close>

definition js_whitespace :: "char \<Rightarrow> bool" where
  "js_whitespace c = ((of_char c :: nat) \<in> {9, 10, 11, 12, 13, 32, 160})"

definition isPostalCode :: "string \<Rightarrow> bool" where
  "isPostalCode input = regex_test postalCodeRegex (filter (\<lambda>c. \<not> js_whitespace c) input)"

text \<open>The letters and the digits, written out.\<close>

definition letters :: string where
  "letters = ''ABCDEFGHIJKLMNOPQRSTUVWXYZ'' @ ''abcdefghijklmnopqrstuvwxyz''"

definition digits :: string where
  "digits = ''0123456789''"

section \<open>Geocoding client (lines 32--76)\<close>

text \<open>The two branches of lines 37--41, and the conditional that chooses between them.\<close>

definition searchQuery_postal :: "string \<Rightarrow> string" where
  "searchQuery_postal query = query @ '', Canada''"

definition searchQuery_place :: "string \<Rightarrow> string" where
  "searchQuery_place query = query @ '', Canada''"

definition searchQuery :: "string \<Rightarrow> string" where
  "searchQuery query =
     (if isPostalCode query then searchQuery_postal query else searchQuery_place query)"

text \<open>
  One element of the service's answer. A missing field is \<open>None\<close>; \<open>lat_num\<close> and
  \<open>lon_num\<close> are the values of \<^verbatim>\<open>parseFloat(item.lat)\<close> and \<^verbatim>\<open>parseFloat(item.lon)\<close>.
\<close>

record address =
  city :: "string option"
  town :: "string option"
  village :: "string option"
  state :: "string option"
  province :: "string option"
  addr_postcode :: "string option"

record item =
  display_name :: string
  lat_num :: jsnum
  lon_num :: jsnum
  place_id :: int
  item_type :: string
  item_address :: "address option"

text \<open>\<^verbatim>\<open>a || b\<close> on values that are a string or \<^verbatim>\<open>undefined\<close>.\<close>

fun js_or :: "string option \<Rightarrow> string option \<Rightarrow> string option" where
  "js_or (Some s) b = (if truthy_str s then Some s else b)"
| "js_or None b = b"

fun truthy_opt :: "string option \<Rightarrow> bool" where
  "truthy_opt (Some s) = truthy_str s"
| "truthy_opt None = False"

text \<open>A value inside a template literal.\<close>

fun interpolate :: "string option \<Rightarrow> string" where
  "interpolate (Some s) = s"
| "interpolate None = ''undefined''"

definition emptyAddress :: address where
  "emptyAddress = \<lparr>city = None, town = None, village = None, state = None,
                    province = None, addr_postcode = None\<rparr>"

definition displayName :: "item \<Rightarrow> string" where
  "displayName it =
     (let address = (case item_address it of Some a \<Rightarrow> a | None \<Rightarrow> emptyAddress)
      in if truthy_opt (js_or (js_or (city address) (town address)) (village address)) then
           (let cityName = js_or (js_or (city address) (town address)) (village address);
                provinceName = js_or (state address) (province address)
            in if truthy_opt provinceName
               then interpolate cityName @ '', '' @ interpolate provinceName
               else interpolate cityName)
         else if truthy_opt (addr_postcode address) then
           interpolate (addr_postcode address) @ '', '' @
             interpolate (js_or (state address) (Some ''Canada''))
         else display_name it)"

text \<open>
  The callback of \<^verbatim>\<open>map\<close> followed by the test of \<^verbatim>\<open>filter\<close>: an element is kept
  when both coordinates are truthy, that is neither \<^verbatim>\<open>NaN\<close> nor zero.
\<close>

definition toLocation :: "item \<Rightarrow> location option" where
  "toLocation it =
     (case (lat_num it, lon_num it) of
        (Num la, Num lo) \<Rightarrow>
          if la \<noteq> 0 \<and> lo \<noteq> 0 then
            Some \<lparr>name = displayName it, fullName = display_name it, lat = la, lng = lo,
                  loc_id = place_id it, loc_type = item_type it,
                  postcode = (case item_address it of Some a \<Rightarrow> addr_postcode a
                              | None \<Rightarrow> None)\<rparr>
          else None
      | _ \<Rightarrow> None)"

text \<open>
  What the network does with a request: \<open>Failed\<close> when the fetch is rejected, the body
  is not JSON or the value is not an array of objects; otherwise the array.
\<close>

datatype response = Failed | Json "item list"

type_synonym cache = "string \<rightharpoonup> location list"

definition initialCache :: cache where
  "initialCache = Map.empty"

text \<open>\<^verbatim>\<open>cityCache[query]\<close> on the object literal of line 2.\<close>

definition cityCache_get :: "cache \<Rightarrow> string \<Rightarrow> location list js_lookup" where
  "cityCache_get cityCache query =
     (case cityCache query of
        Some ls \<Rightarrow> Own ls
      | None \<Rightarrow> if query \<in> set objectPrototypeKeys then Inherited else Undefined)"

text \<open>
  One call, run to its return. The result is the value returned, the cache afterwards
  and the search queries sent to the service, in order. An array, even the empty one,
  is truthy, and so is every inherited member.
\<close>

definition geocodeCanadianLocation ::
    "cache \<Rightarrow> string \<Rightarrow> response \<Rightarrow> location list js_lookup \<times> cache \<times> string list" where
  "geocodeCanadianLocation cityCache query resp =
     (case cityCache_get cityCache query of
        Own ls \<Rightarrow> (Own ls, cityCache, [])
      | Inherited \<Rightarrow> (Inherited, cityCache, [])
      | Undefined \<Rightarrow>
          (case resp of
             Json data \<Rightarrow>
               (let locations = List.map_filter toLocation data
                in (Own locations, cityCache(query \<mapsto> locations), [searchQuery query]))
           | Failed \<Rightarrow> (Own [], cityCache, [searchQuery query])))"

text \<open>
  The cache after a sequence of calls, each with the answer the network has for it.
  The calls run one after another, each to its return before the next begins.
\<close>

fun cache_after :: "cache \<Rightarrow> (string \<times> response) list \<Rightarrow> cache" where
  "cache_after cityCache [] = cityCache"
| "cache_after cityCache ((query, resp) # calls) =
     cache_after (fst (snd (geocodeCanadianLocation cityCache query resp))) calls"

section \<open>Cost-estimate form (lines 297--323)\<close>

record selectedCities =
  origin :: "location option"
  destination :: "location option"
  start :: "location option"
  stops :: "location list"

text \<open>
  The handler ends in an alert, or with the estimate rendered, or in an exception nobody
  catches: from \<^verbatim>\<open>calculateShippingCost\<close>, or from \<^verbatim>\<open>result.deliveryDays[0]\<close> when
  \<^verbatim>\<open>deliveryDays\<close> is \<^verbatim>\<open>undefined\<close>. The argument \<open>weight\<close> is the value of
  \<^verbatim>\<open>parseFloat\<close> on the weight field.
\<close>

datatype outcome = Alert string | Rendered estimate | Uncaught error

definition shippingForm_submit ::
    "platform \<Rightarrow> selectedCities \<Rightarrow> jsnum \<Rightarrow> string \<Rightarrow> outcome" where
  "shippingForm_submit M sel weight shippingType =
     (case (origin sel, destination sel, weight) of
        (Some originLocation, Some destinationLocation, Num w) \<Rightarrow>
          if \<not> truthy_num weight \<or> \<not> truthy_str shippingType then
            Alert ''Please select valid Canadian locations and fill in all fields''
          else if loc_id originLocation = loc_id destinationLocation then
            Alert ''Origin and destination cannot be the same''
          else
            (case calculateShippingCost M originLocation destinationLocation w
                    shippingType of
               Inl e \<Rightarrow> Uncaught e
             | Inr result \<Rightarrow>
                 (case deliveryDays result of
                    None \<Rightarrow> Uncaught TypeError
                  | Some d \<Rightarrow> Rendered result))
      | _ \<Rightarrow> Alert ''Please select valid Canadian locations and fill in all fields'')"

fun aborted :: "outcome \<Rightarrow> bool" where
  "aborted (Alert m) = True"
| "aborted (Rendered r) = False"
| "aborted (Uncaught e) = False"

section \<open>Sample data\<close>

text \<open>Three cities, a selection of origin and destination, and an element of an answer.\<close>

definition toronto :: location where
  "toronto = \<lparr>name = ''Toronto, Ontario'', fullName = ''Toronto, Ontario, Canada'',
               lat = 43.65, lng = - 79.38, loc_id = 1, loc_type = ''city'',
               postcode = None\<rparr>"

definition montreal :: location where
  "montreal = \<lparr>name = ''Montreal, Quebec'', fullName = ''Montreal, Quebec, Canada'',
                lat = 45.50, lng = - 73.57, loc_id = 2, loc_type = ''city'',
                postcode = None\<rparr>"

definition toronto_to_montreal :: selectedCities where
  "toronto_to_montreal =
     \<lparr>origin = Some toronto, destination = Some montreal, start = None, stops = []\<rparr>"

definition ottawa_item :: item where
  "ottawa_item =
     \<lparr>display_name = ''Ottawa, Ontario, Canada'', lat_num = Num 45.42, lon_num = Num (- 75.69),
      place_id = 3, item_type = ''city'',
      item_address = Some \<lparr>city = Some ''Ottawa'', town = None, village = None,
                            state = Some ''Ontario'', province = None,
                            addr_postcode = None\<rparr>\<rparr>"

definition ottawa :: location where
  "ottawa = \<lparr>name = ''Ottawa, Ontario'', fullName = ''Ottawa, Ontario, Canada'',
              lat = 45.42, lng = - 75.69, loc_id = 3, loc_type = ''city'',
              postcode = None\<rparr>"

text \<open>A stop on the meridian of 79 degrees west, at a given latitude.\<close>

definition stop_at :: "real \<Rightarrow> int \<Rightarrow> location" where
  "stop_at la i = \<lparr>name = ''stop'', fullName = ''stop'', lat = la, lng = - 79, loc_id = i,
                    loc_type = ''city'', postcode = None\<rparr>"

section \<open>Properties of the distance calculator\<close>

text \<open>
  All four arguments are numbers, so \<^verbatim>\<open>a\<close> is a number on every platform.
\<close>

lemma haversine_a_Num:
  "\<exists>a. haversine_a M lat1 lng1 lat2 lng2 = Num a"
  by (simp add: haversine_a_def Math_PI_def Let_def)


text \<open>
  What the claim asks for holds of the values returned, under facts of the platform
  that IEEE rounding and the engines' sine have: a point has distance 0 from itself,
  and the two orders of a pair give the same value, a number or \<^verbatim>\<open>NaN\<close>.
\<close>

lemma haversine_a_value:
  "haversine_a M lat1 lng1 lat2 lng2 =
     Num (fl M (fl M (Math_sin M (half_rad M lat1 lat2) * Math_sin M (half_rad M lat1 lat2)) +
                fl M (fl M (fl M (Math_cos M (rad M lat1) * Math_cos M (rad M lat2)) *
                            Math_sin M (half_rad M lng1 lng2)) *
                      Math_sin M (half_rad M lng1 lng2))))"
  by (simp add: haversine_a_def Math_PI_def Let_def half_rad_def rad_def)

lemma haversine_a_commute:
  assumes fl: "\<And>x. fl M (- x) = - fl M x"
    and sin: "\<And>x. Math_sin M (- x) = - Math_sin M x"
  shows "haversine_a M lat1 lng1 lat2 lng2 = haversine_a M lat2 lng2 lat1 lng1"
proof -
  have neg: "Math_sin M (half_rad M y x) = - Math_sin M (half_rad M x y)" for x y
  proof -
    have "fl M (x - y) = - fl M (y - x)"
      using fl [of "y - x"] by simp
    then have "half_rad M y x = - half_rad M x y"
      unfolding half_rad_def
      using fl [of "fl M (y - x) * fl M pi"]
        fl [of "fl M (fl M (y - x) * fl M pi) / 180"]
        fl [of "fl M (fl M (fl M (y - x) * fl M pi) / 180) / 2"]
      by simp
    then show ?thesis by (simp add: sin)
  qed
  show ?thesis
    by (simp add: haversine_a_value neg [of lat1 lat2] neg [of lng1 lng2] fl mult.commute)
qed

lemma calculateDistance_commute:
  assumes "\<And>x. fl M (- x) = - fl M x" and "\<And>x. Math_sin M (- x) = - Math_sin M x"
  shows "calculateDistance M lat1 lng1 lat2 lng2 = calculateDistance M lat2 lng2 lat1 lng1"
  unfolding calculateDistance_def using haversine_a_commute [OF assms] by simp

lemma calculateDistance_self:
  assumes "fl M 0 = 0" and "fl M 1 = 1" and "Math_sin M 0 = 0" and "Math_atan2 M 0 1 = 0"
  shows "calculateDistance M lat1 lng1 lat1 lng1 = Num 0"
  using assms by (simp add: calculateDistance_def haversine_a_def Math_PI_def Let_def)

text \<open>
  On the exact platform \<^verbatim>\<open>a\<close> is the haversine term, which lies between 0 and 1, and
  the distance is the rounded haversine distance.
\<close>

lemma exact_math_sel:
  "fl exact_math x = x" "Math_sin exact_math = sin" "Math_cos exact_math = cos"
  "Math_atan2 exact_math = atan2"
  by (simp_all add: exact_math_def)

lemma haversine_a_exact:
  "haversine_a exact_math lat1 lng1 lat2 lng2 = Num (hav lat1 lng1 lat2 lng2)"
  by (simp add: haversine_a_def hav_def exact_math_sel Math_PI_def Let_def power2_eq_square
      mult.assoc)

lemma hav_range: "0 \<le> hav lat1 lng1 lat2 lng2 \<and> hav lat1 lng1 lat2 lng2 \<le> 1"
proof -
  define p where "p = lat1 * pi / 180"
  define q where "q = lat2 * pi / 180"
  define u where "u = (lat2 - lat1) * pi / 180 / 2"
  define v where "v = (lng2 - lng1) * pi / 180 / 2"
  define K where "K = cos p * cos q"
  define S where "S = (sin u)\<^sup>2"
  define T where "T = (sin v)\<^sup>2"
  have a: "hav lat1 lng1 lat2 lng2 = S + K * T"
    by (simp add: hav_def S_def T_def K_def p_def q_def u_def v_def)
  have qp: "q - p = 2 * u"
    by (simp add: p_def q_def u_def field_simps)
  have "cos (q - p) = K + sin q * sin p"
    by (simp add: cos_diff K_def mult.commute)
  moreover have "cos (q + p) = K - sin q * sin p"
    by (simp add: cos_add K_def mult.commute)
  ultimately have "2 * K = cos (q - p) + cos (q + p)" by simp
  moreover have "cos (q - p) = 1 - 2 * S"
    unfolding qp S_def by (rule cos_double_sin)
  ultimately have K: "2 * K = 1 - 2 * S + cos (q + p)" by simp
  have c: "- 1 \<le> cos (q + p)" "cos (q + p) \<le> 1" by simp_all
  from K c have Klo: "- S \<le> K" and Khi: "K \<le> 1 - S" by linarith+
  have S: "0 \<le> S" "S \<le> 1"
    by (simp_all add: S_def abs_square_le_1)
  have T: "0 \<le> T" "T \<le> 1"
    by (simp_all add: T_def abs_square_le_1)
  have "- S * T \<le> K * T"
    using Klo T(1) by (intro mult_right_mono) simp_all
  moreover have "S * T \<le> S * 1"
    using S(1) T(2) by (intro mult_left_mono) simp_all
  ultimately have lo: "0 \<le> S + K * T" by simp
  have "K * T \<le> (1 - S) * T"
    using Khi T(1) by (intro mult_right_mono) simp_all
  moreover have "(1 - S) * T \<le> (1 - S) * 1"
    using S(2) T(2) by (intro mult_left_mono) simp_all
  ultimately have hi: "S + K * T \<le> 1" by simp
  from lo hi show ?thesis unfolding a by simp
qed

lemma atan2_sqrt_arcsin:
  assumes "0 \<le> a" and "a \<le> 1"
  shows "atan2 (sqrt a) (sqrt (1 - a)) = arcsin (sqrt a)"
proof (cases "a = 1")
  case True
  then show ?thesis by (simp add: atan2_def)
next
  case False
  with assms have lt: "a < 1" by simp
  have s0: "0 \<le> sqrt a" using assms by simp
  have s1: "sqrt a < 1" using lt assms by (simp add: real_sqrt_lt_1_iff)
  have pos: "0 < sqrt (1 - a)" using lt by simp
  have "arcsin (sqrt a) = arctan (sqrt a / sqrt (1 - (sqrt a)\<^sup>2))"
    using s0 s1 by (intro arcsin_arctan) linarith+
  also have "(sqrt a)\<^sup>2 = a" using assms by simp
  finally show ?thesis
    using pos by (simp add: atan2_def)
qed

lemma calculateDistance_exact:
  "calculateDistance exact_math lat1 lng1 lat2 lng2 =
     Num (of_int (haversine_km lat1 lng1 lat2 lng2))"
proof -
  let ?a = "hav lat1 lng1 lat2 lng2"
  have r: "0 \<le> ?a" "?a \<le> 1" using hav_range [of lat1 lng1 lat2 lng2] by simp_all
  have "calculateDistance exact_math lat1 lng1 lat2 lng2 =
        Num (of_int (round (6371 * (2 * atan2 (sqrt ?a) (sqrt (1 - ?a))))))"
    using r by (simp add: calculateDistance_def haversine_a_exact Let_def exact_math_sel)
  also have "\<dots> = Num (of_int (round (2 * 6371 * arcsin (sqrt ?a))))"
    using r by (simp add: atan2_sqrt_arcsin)
  finally show ?thesis
    by (simp add: haversine_km_def)
qed

text \<open>
  Along a meridian the haversine distance is the arc between the two latitudes. With
  \<open>2 \<le> pi < 4\<close> this bounds it on both sides, enough to compare the distances between
  the sample stops.
\<close>

lemma arcsin_abs_sin:
  assumes "\<bar>x\<bar> \<le> pi / 2"
  shows "arcsin \<bar>sin x\<bar> = \<bar>x\<bar>"
proof -
  have "\<bar>sin x\<bar> = sin \<bar>x\<bar>"
  proof (cases "0 \<le> x")
    case True
    with assms have "0 \<le> sin x" by (intro sin_ge_zero) (use pi_ge_two in linarith)+
    with True show ?thesis by simp
  next
    case False
    then have "0 \<le> sin (- x)" using assms by (intro sin_ge_zero) (use pi_ge_two in linarith)+
    with False show ?thesis by (simp add: abs_if)
  qed
  moreover have "arcsin (sin \<bar>x\<bar>) = \<bar>x\<bar>"
    using assms by (intro arcsin_sin) (use pi_ge_two in linarith)+
  ultimately show ?thesis by simp
qed

lemma haversine_km_meridian:
  assumes "\<bar>lat2 - lat1\<bar> \<le> 180"
  shows "haversine_km lat1 lng0 lat2 lng0 = round (6371 * (\<bar>lat2 - lat1\<bar> * pi / 180))"
proof -
  define x where "x = (lat2 - lat1) * pi / 180 / 2"
  have ax: "\<bar>x\<bar> = \<bar>lat2 - lat1\<bar> * pi / 360"
    by (simp add: x_def abs_mult)
  also have "\<dots> \<le> 180 * pi / 360"
    using assms by (intro divide_right_mono mult_right_mono) simp_all
  finally have bound: "\<bar>x\<bar> \<le> pi / 2" by simp
  have "haversine_km lat1 lng0 lat2 lng0 = round (2 * 6371 * arcsin (sqrt ((sin x)\<^sup>2)))"
    by (simp add: haversine_km_def hav_def x_def)
  also have "arcsin (sqrt ((sin x)\<^sup>2)) = \<bar>x\<bar>"
    using arcsin_abs_sin [OF bound] by simp
  also have "2 * 6371 * \<bar>x\<bar> = 6371 * (\<bar>lat2 - lat1\<bar> * pi / 180)"
    unfolding ax by simp
  finally show ?thesis .
qed

lemma haversine_km_meridian_bounds:
  assumes "\<bar>lat2 - lat1\<bar> = k" and "k \<le> 180"
  shows "70 * k - 1 \<le> real_of_int (haversine_km lat1 lng0 lat2 lng0)"
    and "real_of_int (haversine_km lat1 lng0 lat2 lng0) \<le> 142 * k + 1"
proof -
  have k0: "0 \<le> k" using assms(1) by auto
  let ?x = "6371 * (k * pi / 180)"
  have d: "haversine_km lat1 lng0 lat2 lng0 = round ?x"
    using assms haversine_km_meridian [of lat2 lat1 lng0] by simp
  have "k * 2 \<le> k * pi" using k0 pi_ge_two by (intro mult_left_mono) simp_all
  then have lo: "70 * k \<le> ?x" using k0 by simp
  have "k * pi \<le> k * 4" using k0 pi_less_4 by (intro mult_left_mono) simp_all
  then have hi: "?x \<le> 142 * k" using k0 by simp
  have "?x - 1 / 2 \<le> real_of_int (round ?x)" by (rule of_int_round_ge)
  with lo show "70 * k - 1 \<le> real_of_int (haversine_km lat1 lng0 lat2 lng0)"
    unfolding d by linarith
  have "real_of_int (round ?x) \<le> ?x + 1 / 2" by (rule of_int_round_le)
  with hi show "real_of_int (haversine_km lat1 lng0 lat2 lng0) \<le> 142 * k + 1"
    unfolding d by linarith
qed

section \<open>Properties of the cost calculator\<close>


section \<open>Properties of the route optimizer\<close>

text \<open>
  Claim C4. For every start location, \<^verbatim>\<open>optimizeRoute\<close> on the empty stop list returns
  the route that holds the start alone, and the total distance 0.
\<close>

theorem optimizeRoute_no_stops:
  "optimizeRoute M s [] = \<lparr>route = [s], totalDistance = Num 0\<rparr>"
  by (simp add: optimizeRoute_def)

subsection \<open>The loop on every platform\<close>

text \<open>
  Whatever the distances are, numbers or not, the scan returns a stop of the list with
  its index and its distance, and the loop visits every stop once and accumulates the
  distances of the legs it appends.
\<close>

lemma mset_splice1:
  assumes "i < length xs"
  shows "mset (splice1 xs i) = mset xs - {#xs ! i#}"
proof -
  have "xs = take i xs @ xs ! i # drop (Suc i) xs"
    using assms by (rule id_take_nth_drop)
  then have "mset xs = mset (splice1 xs i) + {#xs ! i#}"
    unfolding splice1_def
    by (metis mset.simps(2) mset_append union_mset_add_mset_right add.right_neutral
        add_mset_add_single)
  then show ?thesis by simp
qed

lemma nearest_scan_shape:
  assumes "k < length remaining"
  shows "\<exists>m<length remaining.
           nearest_scan M current remaining i
             (remaining ! k, legDistance M current (remaining ! k), k) =
           (remaining ! m, legDistance M current (remaining ! m), m)"
  using assms
proof (induction "length remaining - i" arbitrary: i k)
  case 0
  then show ?case
    by (auto simp add: nearest_scan.simps [of M current remaining i])
next
  case (Suc n)
  then have lt: "i < length remaining" by simp
  let ?k = "if js_less (legDistance M current (remaining ! i))
                       (legDistance M current (remaining ! k)) then i else k"
  have step: "nearest_scan M current remaining i
                (remaining ! k, legDistance M current (remaining ! k), k) =
              nearest_scan M current remaining (Suc i)
                (remaining ! ?k, legDistance M current (remaining ! ?k), ?k)"
    using lt by (simp add: nearest_scan.simps [of M current remaining i] Let_def)
  have "n = length remaining - Suc i"
    using Suc.hyps(2) by simp
  moreover have "?k < length remaining"
    using lt Suc.prems by simp
  ultimately show ?case
    unfolding step by (rule Suc.hyps(1))
qed

lemma route_loop_visits:
  "\<exists>ys. route_loop M r remaining current t = (r @ ys, sum_legs M t (current # ys)) \<and>
        mset ys = mset remaining"
proof (induction "length remaining" arbitrary: r remaining current t)
  case 0
  then show ?case
    by (simp add: route_loop.simps [of M r "[]"])
next
  case (Suc n)
  from Suc.hyps(2) have ne: "0 < length remaining" by linarith
  then obtain m where m: "m < length remaining"
    and scan: "nearest_scan M current remaining 1
                 (remaining ! 0, legDistance M current (remaining ! 0), 0) =
               (remaining ! m, legDistance M current (remaining ! m), m)"
    using nearest_scan_shape [of 0 remaining M current 1] by blast
  have step: "route_loop M r remaining current t =
              route_loop M (r @ [remaining ! m]) (splice1 remaining m) (remaining ! m)
                (js_add M t (legDistance M current (remaining ! m)))"
    using ne scan by (simp add: route_loop.simps [of M r remaining] del: One_nat_def)
  have "n = length (splice1 remaining m)"
    using Suc.hyps(2) m by (simp add: splice1_def)
  from Suc.hyps(1) [OF this] obtain ys where
    ys: "route_loop M (r @ [remaining ! m]) (splice1 remaining m) (remaining ! m)
           (js_add M t (legDistance M current (remaining ! m))) =
         ((r @ [remaining ! m]) @ ys,
          sum_legs M (js_add M t (legDistance M current (remaining ! m))) (remaining ! m # ys))"
    and perm: "mset ys = mset (splice1 remaining m)"
    by blast
  have "route_loop M r remaining current t =
        (r @ (remaining ! m # ys), sum_legs M t (current # remaining ! m # ys))"
    unfolding step ys by simp
  moreover have "mset (remaining ! m # ys) = mset remaining"
    using perm m by (simp add: mset_splice1)
  ultimately show ?case by blast
qed

lemma optimizeRoute_visits:
  "\<exists>ys. optimizeRoute M s xs =
          \<lparr>route = s # ys, totalDistance = path_length M (s # ys)\<rparr> \<and>
        mset ys = mset xs"
proof (cases "xs = []")
  case True
  then show ?thesis
    by (simp add: optimizeRoute_def path_length_def)
next
  case False
  obtain ys where "route_loop M [s] xs s (Num 0) = ([s] @ ys, sum_legs M (Num 0) (s # ys))"
    and "mset ys = mset xs"
    using route_loop_visits [of M "[s]" xs s "Num 0"] by blast
  with False show ?thesis
    by (simp add: optimizeRoute_def path_length_def)
qed

text \<open>
  Claim C6. The total distance returned is the sum, over the consecutive pairs of the
  returned route, of the rounded distance of the pair.
\<close>

theorem optimizeRoute_totalDistance:
  "totalDistance (optimizeRoute M s xs) = path_length M (route (optimizeRoute M s xs))"
proof -
  obtain ys where "optimizeRoute M s xs =
      \<lparr>route = s # ys, totalDistance = path_length M (s # ys)\<rparr>"
    using optimizeRoute_visits [of M s xs] by blast
  then show ?thesis by simp
qed

text \<open>
  Claim C10. The route has one element more than the stop list, begins with the start,
  and its tail is a permutation of the stop list.
\<close>

theorem optimizeRoute_permutation:
  "length (route (optimizeRoute M s xs)) = length xs + 1 \<and>
   hd (route (optimizeRoute M s xs)) = s \<and>
   mset (tl (route (optimizeRoute M s xs))) = mset xs"
proof -
  obtain ys where r: "optimizeRoute M s xs =
      \<lparr>route = s # ys, totalDistance = path_length M (s # ys)\<rparr>"
    and perm: "mset ys = mset xs"
    using optimizeRoute_visits [of M s xs] by blast
  from perm have "length ys = length xs"
    by (rule mset_eq_length)
  with r perm show ?thesis by simp
qed

subsection \<open>The order of the visits\<close>


text \<open>
  When every leg is a number the route is the start followed by the nearest-neighbour
  ordering of the stops: at every step the remaining stop at minimum rounded distance
  from the current position, the earliest in the list when several are at that
  distance.
\<close>

lemma legDistance_km:
  "legDistance M p q \<noteq> NaN \<Longrightarrow> legDistance M p q = Num (km M p q)"
  by (cases "legDistance M p q") (simp_all add: km_def)

lemma first_min_upto_step:
  assumes "first_min_upto M current remaining i k"
  shows "first_min_upto M current remaining (Suc i)
           (if km M current (remaining ! i) < km M current (remaining ! k) then i else k)"
proof (cases "km M current (remaining ! i) < km M current (remaining ! k)")
  case True
  have "km M current (remaining ! i) \<le> km M current (remaining ! j)" if "j < Suc i" for j
  proof (cases "j = i")
    case True
    then show ?thesis by simp
  next
    case False
    with that have "j < i" by simp
    with assms have "km M current (remaining ! k) \<le> km M current (remaining ! j)"
      by (simp add: first_min_upto_def)
    with True show ?thesis by linarith
  qed
  moreover have "km M current (remaining ! i) < km M current (remaining ! j)" if "j < i" for j
  proof -
    from that assms have "km M current (remaining ! k) \<le> km M current (remaining ! j)"
      by (simp add: first_min_upto_def)
    with True show ?thesis by linarith
  qed
  ultimately show ?thesis
    using True by (simp add: first_min_upto_def)
next
  case False
  have "km M current (remaining ! k) \<le> km M current (remaining ! j)" if "j < Suc i" for j
  proof (cases "j = i")
    case True
    with False show ?thesis by simp
  next
    case False
    with that have "j < i" by simp
    with assms show ?thesis by (simp add: first_min_upto_def)
  qed
  with assms False show ?thesis
    by (simp add: first_min_upto_def)
qed

lemma nearest_scan_first_min:
  assumes "i \<le> length remaining" and "first_min_upto M current remaining i k"
    and "numeric_legs M [current] remaining"
  shows "\<exists>m. nearest_scan M current remaining i
                (remaining ! k, legDistance M current (remaining ! k), k) =
              (remaining ! m, legDistance M current (remaining ! m), m) \<and>
             first_min_upto M current remaining (length remaining) m"
  using assms(1,2)
proof (induction "length remaining - i" arbitrary: i k)
  case 0
  then have "i = length remaining" by simp
  with "0.prems" show ?case
    by (auto simp add: nearest_scan.simps [of M current remaining "length remaining"])
next
  case (Suc n)
  then have lt: "i < length remaining" by simp
  from Suc.prems(2) have "k < i" by (simp add: first_min_upto_def)
  with lt have k: "k < length remaining" by simp
  have num: "legDistance M current (remaining ! j) = Num (km M current (remaining ! j))"
    if "j < length remaining" for j
    using assms(3) that by (intro legDistance_km) (simp add: numeric_legs_def)
  let ?k = "if km M current (remaining ! i) < km M current (remaining ! k) then i else k"
  have step: "nearest_scan M current remaining i
                (remaining ! k, legDistance M current (remaining ! k), k) =
              nearest_scan M current remaining (Suc i)
                (remaining ! ?k, legDistance M current (remaining ! ?k), ?k)"
    using lt by (simp add: nearest_scan.simps [of M current remaining i] Let_def
        num [OF lt] num [OF k])
  have "n = length remaining - Suc i"
    using Suc.hyps(2) by simp
  moreover have "Suc i \<le> length remaining"
    using lt by simp
  moreover have "first_min_upto M current remaining (Suc i) ?k"
    using Suc.prems(2) by (rule first_min_upto_step)
  ultimately show ?case
    unfolding step by (rule Suc.hyps(1))
qed

lemma first_min_is_first_nearest_index:
  assumes "first_min_upto M current remaining (length remaining) m"
  shows "first_nearest_index M current remaining = m"
proof -
  from assms have m: "m < length remaining"
    and le: "\<And>j. j < length remaining \<Longrightarrow>
               km M current (remaining ! m) \<le> km M current (remaining ! j)"
    and less: "\<And>j. j < m \<Longrightarrow> km M current (remaining ! m) < km M current (remaining ! j)"
    by (simp_all add: first_min_upto_def)
  have Min: "Min (set (map (km M current) remaining)) = km M current (remaining ! m)"
  proof (rule Min_eqI)
    show "finite (set (map (km M current) remaining))" by simp
  next
    fix y assume "y \<in> set (map (km M current) remaining)"
    then obtain j where "j < length remaining" and "y = km M current (remaining ! j)"
      by (auto simp add: in_set_conv_nth)
    with le show "km M current (remaining ! m) \<le> y" by simp
  next
    show "km M current (remaining ! m) \<in> set (map (km M current) remaining)"
      using m by simp
  qed
  have "takeWhile (\<lambda>s. km M current s \<noteq> Min (set (map (km M current) remaining)))
               remaining = take m remaining"
  proof (intro takeWhile_eq_take_P_nth)
    fix i assume "i < m"
    then have "km M current (remaining ! m) < km M current (remaining ! i)"
      by (rule less)
    then show "km M current (remaining ! i) \<noteq> Min (set (map (km M current) remaining))"
      using Min by simp
  next
    show "\<not> km M current (remaining ! m) \<noteq> Min (set (map (km M current) remaining))"
      using Min by simp
  qed
  with m show ?thesis
    by (simp add: first_nearest_index_def)
qed

lemma nearest_scan_from_start:
  assumes "remaining \<noteq> []" and "numeric_legs M [current] remaining"
  shows "nearest_scan M current remaining (Suc 0)
           (remaining ! 0, legDistance M current (remaining ! 0), 0) =
         (remaining ! first_nearest_index M current remaining,
          legDistance M current (remaining ! first_nearest_index M current remaining),
          first_nearest_index M current remaining)"
proof -
  have "Suc 0 \<le> length remaining"
    using assms(1) by (cases remaining) simp_all
  moreover have "first_min_upto M current remaining (Suc 0) 0"
    by (simp add: first_min_upto_def)
  ultimately obtain m where
    "nearest_scan M current remaining (Suc 0)
       (remaining ! 0, legDistance M current (remaining ! 0), 0) =
       (remaining ! m, legDistance M current (remaining ! m), m)"
    and "first_min_upto M current remaining (length remaining) m"
    using nearest_scan_first_min [of "Suc 0" remaining M current 0] assms(2) by blast
  then show ?thesis
    using first_min_is_first_nearest_index [of M current remaining m] by simp
qed

lemma set_splice1: "set (splice1 xs i) \<subseteq> set xs"
  unfolding splice1_def by (auto dest: in_set_takeD in_set_dropD)

lemma route_loop_nearest_neighbour:
  "numeric_legs M (current # remaining) remaining \<Longrightarrow>
   route_loop M r remaining current t =
     (r @ nearest_neighbour_order M current remaining,
      sum_legs M t (current # nearest_neighbour_order M current remaining))"
proof (induction M current remaining arbitrary: r t rule: nearest_neighbour_order.induct)
  case (1 M current remaining)
  show ?case
  proof (cases "remaining = []")
    case True
    then show ?thesis
      by (simp add: route_loop.simps [of M r "[]"]
          nearest_neighbour_order.simps [of M current "[]"])
  next
    case False
    let ?i = "first_nearest_index M current remaining"
    have i: "?i < length remaining"
      using False by (rule first_nearest_index_less)
    have cur: "numeric_legs M [current] remaining"
      using "1.prems" by (simp add: numeric_legs_def)
    have rest: "numeric_legs M (remaining ! ?i # splice1 remaining ?i) (splice1 remaining ?i)"
      using "1.prems" i set_splice1 [of remaining ?i]
      by (auto simp add: numeric_legs_def)
    have "route_loop M r remaining current t =
          route_loop M (r @ [remaining ! ?i]) (splice1 remaining ?i) (remaining ! ?i)
            (js_add M t (legDistance M current (remaining ! ?i)))"
      using False
      by (simp add: route_loop.simps [of M r remaining] nearest_scan_from_start [OF False cur])
    also have "\<dots> = ((r @ [remaining ! ?i]) @
                      nearest_neighbour_order M (remaining ! ?i) (splice1 remaining ?i),
                    sum_legs M (js_add M t (legDistance M current (remaining ! ?i)))
                      (remaining ! ?i #
                        nearest_neighbour_order M (remaining ! ?i) (splice1 remaining ?i)))"
      using False rest by (intro "1.IH") simp_all
    also have "\<dots> = (r @ nearest_neighbour_order M current remaining,
                    sum_legs M t (current # nearest_neighbour_order M current remaining))"
      using False by (simp add: nearest_neighbour_order.simps [of M current remaining] Let_def)
    finally show ?thesis .
  qed
qed

lemma optimizeRoute_nearest_neighbour_order:
  assumes "numeric_legs M (s # xs) xs"
  shows "route (optimizeRoute M s xs) = s # nearest_neighbour_order M s xs"
proof (cases "xs = []")
  case True
  then show ?thesis
    by (simp add: optimizeRoute_def nearest_neighbour_order.simps [of M s "[]"])
next
  case False
  then show ?thesis
    by (simp add: optimizeRoute_def route_loop_nearest_neighbour [OF assms])
qed

lemma first_nearest_index_Min:
  assumes "remaining \<noteq> []"
  shows "km M current (remaining ! first_nearest_index M current remaining) =
         Min (set (map (km M current) remaining))"
proof -
  have "first_nearest_index M current remaining < length remaining"
    using assms by (rule first_nearest_index_less)
  then show ?thesis
    unfolding first_nearest_index_def
    using nth_length_takeWhile
      [of "\<lambda>s. km M current s \<noteq> Min (set (map (km M current) remaining))" remaining]
    by simp
qed

lemma nearest_neighbour_order_strict:
  assumes "x \<in> set xs"
    and "\<forall>y\<in>set xs. y \<noteq> x \<longrightarrow> km M current x < km M current y"
  shows "\<exists>ys. nearest_neighbour_order M current xs = x # nearest_neighbour_order M x ys \<and>
              mset ys = mset xs - {#x#}"
proof -
  let ?i = "first_nearest_index M current xs"
  from assms(1) have ne: "xs \<noteq> []" by auto
  then have i: "?i < length xs" by (rule first_nearest_index_less)
  have "km M current (xs ! ?i) \<le> km M current x"
    unfolding first_nearest_index_Min [OF ne] using assms(1) by (intro Min_le) simp_all
  moreover have "xs ! ?i \<in> set xs"
    using i by simp
  ultimately have pick: "xs ! ?i = x"
    using assms(2) by force
  have "nearest_neighbour_order M current xs =
        x # nearest_neighbour_order M x (splice1 xs ?i)"
    using ne pick by (simp add: nearest_neighbour_order.simps [of M current xs] Let_def)
  moreover have "mset (splice1 xs ?i) = mset xs - {#x#}"
    using mset_splice1 [OF i] pick by simp
  ultimately show ?thesis by blast
qed

lemma mset_nearest_neighbour_order:
  "mset (nearest_neighbour_order M current remaining) = mset remaining"
proof (induction M current remaining rule: nearest_neighbour_order.induct)
  case (1 M current remaining)
  show ?case
  proof (cases "remaining = []")
    case True
    then show ?thesis
      by (simp add: nearest_neighbour_order.simps [of M current "[]"])
  next
    case False
    let ?i = "first_nearest_index M current remaining"
    have i: "?i < length remaining"
      using False by (rule first_nearest_index_less)
    have "mset (nearest_neighbour_order M current remaining) =
          add_mset (remaining ! ?i) (mset (splice1 remaining ?i))"
      using False "1.IH" [OF False refl]
      by (simp add: nearest_neighbour_order.simps [of M current remaining] Let_def)
    also have "\<dots> = mset remaining"
      using i by (simp add: mset_splice1)
    finally show ?thesis .
  qed
qed

text \<open>
  So when the stops are \<open>a\<close>, \<open>b\<close> and \<open>c\<close> in any order, every leg is a number, \<open>a\<close> is
  strictly nearest to the start and \<open>b\<close> is strictly nearer to \<open>a\<close> than \<open>c\<close> is, the
  route is start, \<open>a\<close>, \<open>b\<close>, \<open>c\<close>.
\<close>

lemma optimizeRoute_scenario:
  assumes num: "numeric_legs M (s # xs) xs"
    and xs: "mset xs = {#a, b, c#}"
    and sab: "km M s a < km M s b" and sac: "km M s a < km M s c"
    and abc: "km M a b < km M a c"
  shows "route (optimizeRoute M s xs) = [s, a, b, c]"
proof -
  from xs have set_xs: "set xs = {a, b, c}"
    by (metis set_mset_mset set_mset_add_mset_insert set_mset_empty)
  then have "a \<in> set xs"
    and "\<forall>y\<in>set xs. y \<noteq> a \<longrightarrow> km M s a < km M s y"
    using sab sac by auto
  then obtain ys where
    first: "nearest_neighbour_order M s xs = a # nearest_neighbour_order M a ys"
    and ys: "mset ys = mset xs - {#a#}"
    using nearest_neighbour_order_strict [of a xs M s] by blast
  from ys xs have ys': "mset ys = {#b, c#}" by simp
  then have "set ys = {b, c}"
    by (metis set_mset_mset set_mset_add_mset_insert set_mset_empty)
  then have "b \<in> set ys"
    and "\<forall>y\<in>set ys. y \<noteq> b \<longrightarrow> km M a b < km M a y"
    using abc by auto
  then obtain zs where
    second: "nearest_neighbour_order M a ys = b # nearest_neighbour_order M b zs"
    and zs: "mset zs = mset ys - {#b#}"
    using nearest_neighbour_order_strict [of b ys M a] by blast
  from zs ys' have "mset zs = {#c#}" by simp
  then have "zs = [c]" by simp
  then have "nearest_neighbour_order M b zs = [c]"
    using mset_nearest_neighbour_order [of M b zs] by simp
  with first second show ?thesis
    by (simp add: optimizeRoute_nearest_neighbour_order [OF num])
qed

text \<open>
  On the exact platform every leg is a number. The stops at latitudes 56, 47 and 44,
  entered farthest first, are visited nearest first from the start at 43.
\<close>

lemma km_exact: "km exact_math p q = of_int (haversine_km (lat p) (lng p) (lat q) (lng q))"
  by (simp add: km_def legDistance_def calculateDistance_exact)

lemma numeric_legs_exact: "numeric_legs exact_math ps qs"
  by (simp add: numeric_legs_def legDistance_def calculateDistance_exact)

lemma stop_at_nearer:
  assumes "\<bar>q - p\<bar> = k" and "\<bar>r - p\<bar> = l" and "k \<le> 180" and "l \<le> 180"
    and "142 * k + 2 < 70 * l"
  shows "km exact_math (stop_at p i) (stop_at q j) < km exact_math (stop_at p i) (stop_at r n)"
proof -
  have "km exact_math (stop_at p i) (stop_at q j) \<le> 142 * k + 1"
    using haversine_km_meridian_bounds(2) [OF assms(1) assms(3)]
    by (simp add: km_exact stop_at_def)
  moreover have "70 * l - 1 \<le> km exact_math (stop_at p i) (stop_at r n)"
    using haversine_km_meridian_bounds(1) [OF assms(2) assms(4)]
    by (simp add: km_exact stop_at_def)
  ultimately show ?thesis
    using assms(5) by linarith
qed

lemma optimizeRoute_scenario_exact:
  "route (optimizeRoute exact_math (stop_at 43 1) [stop_at 56 4, stop_at 47 3, stop_at 44 2]) =
     [stop_at 43 1, stop_at 44 2, stop_at 47 3, stop_at 56 4]"
proof (rule optimizeRoute_scenario)
  show "numeric_legs exact_math (stop_at 43 1 # [stop_at 56 4, stop_at 47 3, stop_at 44 2])
          [stop_at 56 4, stop_at 47 3, stop_at 44 2]"
    by (rule numeric_legs_exact)
  show "mset [stop_at 56 4, stop_at 47 3, stop_at 44 2] =
        {#stop_at 44 2, stop_at 47 3, stop_at 56 4#}"
    by simp
  show "km exact_math (stop_at 43 1) (stop_at 44 2) < km exact_math (stop_at 43 1) (stop_at 47 3)"
    by (rule stop_at_nearer [of _ _ 1 _ 4]) simp_all
  show "km exact_math (stop_at 43 1) (stop_at 44 2) < km exact_math (stop_at 43 1) (stop_at 56 4)"
    by (rule stop_at_nearer [of _ _ 1 _ 13]) simp_all
  show "km exact_math (stop_at 44 2) (stop_at 47 3) < km exact_math (stop_at 44 2) (stop_at 56 4)"
    by (rule stop_at_nearer [of _ _ 3 _ 12]) simp_all
qed

section \<open>Properties of the postal code matcher\<close>

text \<open>
  The pattern accepts exactly letter, digit, letter, then digit, letter, digit, with at
  most one space or hyphen between the two groups.
\<close>

lemma regex_test_One:
  "regex_test (One k # r) s = (case s of [] \<Rightarrow> False | c # cs \<Rightarrow> in_class k c \<and> regex_test r cs)"
  by (cases s) simp_all

lemma regex_test_Optional:
  "regex_test (Optional k # r) s =
     ((case s of [] \<Rightarrow> False | c # cs \<Rightarrow> in_class k c \<and> regex_test r cs) \<or> regex_test r s)"
  by (cases s) simp_all

lemma postalCodeRegex_shape:
  "regex_test postalCodeRegex s \<longleftrightarrow>
     (\<exists>a b c d e f.
        (s = [a, b, c, d, e, f] \<or> (\<exists>sep. s = [a, b, c, sep, d, e, f] \<and> in_class Separator sep)) \<and>
        in_class Letter a \<and> in_class Digit b \<and> in_class Letter c \<and>
        in_class Digit d \<and> in_class Letter e \<and> in_class Digit f)"
  unfolding postalCodeRegex_def regex_test_One regex_test_Optional regex_test.simps(1)
  by (auto split: list.splits)

text \<open>The classes of the pattern and \<^verbatim>\<open>\s\<close>, character by character.\<close>

lemma char_of_image_iff:
  assumes "\<forall>n\<in>set ns. n < 256"
  shows "c \<in> set (map char_of ns) \<longleftrightarrow> (of_char c :: nat) \<in> set ns"
proof
  assume "c \<in> set (map char_of ns)"
  then obtain n where n: "n \<in> set ns" and c: "c = char_of n" by auto
  with assms have "n < 256" by simp
  then have "of_char (char_of n) = n" by simp
  with n c show "(of_char c :: nat) \<in> set ns" by simp
next
  assume "(of_char c :: nat) \<in> set ns"
  then have "char_of (of_char c :: nat) \<in> set (map char_of ns)"
    by (simp only: set_map) (rule imageI)
  then show "c \<in> set (map char_of ns)" by simp
qed

lemma digits_upt: "map char_of [48..<58 :: nat] = ''0123456789''"
  by code_simp

lemma upper_upt: "map char_of [65..<91 :: nat] = ''ABCDEFGHIJKLMNOPQRSTUVWXYZ''"
  by code_simp

lemma lower_upt: "map char_of [97..<123 :: nat] = ''abcdefghijklmnopqrstuvwxyz''"
  by code_simp

lemma in_class_Digit: "in_class Digit c \<longleftrightarrow> c \<in> set ''0123456789''"
proof -
  have "c \<in> set (map char_of [48..<58 :: nat]) \<longleftrightarrow> (of_char c :: nat) \<in> set [48..<58]"
    by (rule char_of_image_iff) simp
  moreover have "(of_char c :: nat) \<in> set [48..<58] \<longleftrightarrow> in_class Digit c"
    by (simp only: set_upt atLeastLessThan_iff in_class.simps) linarith
  ultimately show ?thesis
    by (simp only: digits_upt)
qed

lemma in_class_Letter:
  "in_class Letter c \<longleftrightarrow>
     c \<in> set ''ABCDEFGHIJKLMNOPQRSTUVWXYZ'' \<or> c \<in> set ''abcdefghijklmnopqrstuvwxyz''"
proof -
  have "c \<in> set (map char_of [65..<91 :: nat]) \<longleftrightarrow> (of_char c :: nat) \<in> set [65..<91]"
    by (rule char_of_image_iff) simp
  moreover
  have "c \<in> set (map char_of [97..<123 :: nat]) \<longleftrightarrow> (of_char c :: nat) \<in> set [97..<123]"
    by (rule char_of_image_iff) simp
  moreover have "(of_char c :: nat) \<in> set [65..<91] \<or> (of_char c :: nat) \<in> set [97..<123] \<longleftrightarrow>
                 in_class Letter c"
    by (simp only: set_upt atLeastLessThan_iff in_class.simps) linarith
  ultimately show ?thesis
    by (simp only: upper_upt lower_upt)
qed

lemma whitespace_list:
  "map char_of [9, 10, 11, 12, 13, 32, 160 :: nat] =
     [CHR 0x09, CHR 0x0A, CHR 0x0B, CHR 0x0C, CHR 0x0D, CHR 0x20, CHR 0xA0]"
  by code_simp

lemma js_whitespace_chars:
  "js_whitespace c \<longleftrightarrow>
     c \<in> set [CHR 0x09, CHR 0x0A, CHR 0x0B, CHR 0x0C, CHR 0x0D, CHR 0x20, CHR 0xA0]"
proof -
  have "c \<in> set (map char_of [9, 10, 11, 12, 13, 32, 160 :: nat]) \<longleftrightarrow>
        (of_char c :: nat) \<in> set [9, 10, 11, 12, 13, 32, 160]"
    by (rule char_of_image_iff) simp
  moreover have "(of_char c :: nat) \<in> set [9, 10, 11, 12, 13, 32, 160] \<longleftrightarrow> js_whitespace c"
    by (simp add: js_whitespace_def)
  ultimately show ?thesis
    by (simp only: whitespace_list)
qed

lemma in_class_letters: "in_class Letter c \<longleftrightarrow> c \<in> set letters"
  by (simp only: in_class_Letter letters_def set_append Un_iff)

lemma in_class_digits: "in_class Digit c \<longleftrightarrow> c \<in> set digits"
  unfolding in_class_Digit digits_def ..

text \<open>
  Claim C7. \<^verbatim>\<open>isPostalCode\<close> accepts \<^verbatim>\<open>K1A0B1\<close> and \<^verbatim>\<open>K1A 0B1\<close>, and rejects
  \<^verbatim>\<open>12345\<close> and \<^verbatim>\<open>K1A0B\<close>. It accepts an input exactly when, with its whitespace
  removed, the input is a letter, a digit, a letter, then at most one hyphen, then a
  digit, a letter, a digit. A space between the groups is removed with the rest of
  the whitespace before the pattern is tried.
\<close>

theorem isPostalCode_shape:
  "isPostalCode ''K1A0B1'' \<and> isPostalCode ''K1A 0B1'' \<and>
   \<not> isPostalCode ''12345'' \<and> \<not> isPostalCode ''K1A0B'' \<and>
   (isPostalCode input \<longleftrightarrow>
      (\<exists>a b c d e f.
         (filter (\<lambda>c. c \<notin> set [CHR 0x09, CHR 0x0A, CHR 0x0B, CHR 0x0C, CHR 0x0D,
                                  CHR 0x20, CHR 0xA0]) input = [a, b, c, d, e, f] \<or>
          filter (\<lambda>c. c \<notin> set [CHR 0x09, CHR 0x0A, CHR 0x0B, CHR 0x0C, CHR 0x0D,
                                  CHR 0x20, CHR 0xA0]) input = [a, b, c, CHR ''-'', d, e, f]) \<and>
         a \<in> set letters \<and> b \<in> set digits \<and> c \<in> set letters \<and>
         d \<in> set digits \<and> e \<in> set letters \<and> f \<in> set digits))"
proof (intro conjI)
  let ?ws = "[CHR 0x09, CHR 0x0A, CHR 0x0B, CHR 0x0C, CHR 0x0D, CHR 0x20, CHR 0xA0]"
  let ?s = "filter (\<lambda>c. c \<notin> set ?ws) input"
  have strip: "filter (\<lambda>c. \<not> js_whitespace c) input = ?s"
    by (simp only: js_whitespace_chars)
  have nospace: "CHR '' '' \<notin> set ?s"
    by simp
  have "regex_test postalCodeRegex ?s \<longleftrightarrow>
      (\<exists>a b c d e f.
         (?s = [a, b, c, d, e, f] \<or> ?s = [a, b, c, CHR ''-'', d, e, f]) \<and>
         a \<in> set letters \<and> b \<in> set digits \<and> c \<in> set letters \<and>
         d \<in> set digits \<and> e \<in> set letters \<and> f \<in> set digits)"
    (is "?L \<longleftrightarrow> ?R")
  proof
    assume ?L
    then obtain a b c d e f where
      shape: "?s = [a, b, c, d, e, f] \<or>
              (\<exists>sep. ?s = [a, b, c, sep, d, e, f] \<and> in_class Separator sep)"
      and cls: "in_class Letter a" "in_class Digit b" "in_class Letter c"
        "in_class Digit d" "in_class Letter e" "in_class Digit f"
      unfolding postalCodeRegex_shape by blast
    from shape have "?s = [a, b, c, d, e, f] \<or> ?s = [a, b, c, CHR ''-'', d, e, f]"
    proof
      assume "?s = [a, b, c, d, e, f]"
      then show ?thesis by simp
    next
      assume "\<exists>sep. ?s = [a, b, c, sep, d, e, f] \<and> in_class Separator sep"
      then obtain sep where s: "?s = [a, b, c, sep, d, e, f]"
        and sep: "sep = CHR '' '' \<or> sep = CHR ''-''"
        by auto
      from s have "sep \<in> set ?s" by (simp only: list.set) simp
      with nospace have "sep \<noteq> CHR '' ''" by metis
      with sep s show ?thesis by simp
    qed
    with cls show ?R
      unfolding in_class_letters in_class_digits by blast
  next
    assume ?R
    then obtain a b c d e f where
      shape: "?s = [a, b, c, d, e, f] \<or> ?s = [a, b, c, CHR ''-'', d, e, f]"
      and cls: "in_class Letter a" "in_class Digit b" "in_class Letter c"
        "in_class Digit d" "in_class Letter e" "in_class Digit f"
      unfolding in_class_letters in_class_digits by blast
    have "in_class Separator CHR ''-''" by simp
    with shape cls show ?L
      unfolding postalCodeRegex_shape by blast
  qed
  then show "isPostalCode input \<longleftrightarrow>
      (\<exists>a b c d e f.
         (?s = [a, b, c, d, e, f] \<or> ?s = [a, b, c, CHR ''-'', d, e, f]) \<and>
         a \<in> set letters \<and> b \<in> set digits \<and> c \<in> set letters \<and>
         d \<in> set digits \<and> e \<in> set letters \<and> f \<in> set digits)"
    unfolding isPostalCode_def strip .
qed (simp_all add: isPostalCode_def postalCodeRegex_def js_whitespace_def)

section \<open>Properties of the geocoding client\<close>

text \<open>
  Claim C8. The branch taken for a postal code and the branch taken for a place name
  build the same string, so the search query is the query followed by
  \<^verbatim>\<open>, Canada\<close> whether or not \<^verbatim>\<open>isPostalCode\<close> holds.
\<close>

theorem searchQuery_branches_equal:
  "searchQuery_postal query = searchQuery_place query \<and>
   searchQuery query = query @ '', Canada''"
  by (simp add: searchQuery_def searchQuery_postal_def searchQuery_place_def)

lemma toLocation_ottawa: "toLocation ottawa_item = Some ottawa"
  by (simp add: toLocation_def ottawa_item_def ottawa_def displayName_def truthy_str_def)

lemma cityCache_get_initial_Ottawa: "cityCache_get initialCache ''Ottawa'' = Undefined"
  by (simp add: cityCache_get_def initialCache_def objectPrototypeKeys_def)

lemma searchQuery_eq: "searchQuery query = query @ '', Canada''"
  by (simp add: searchQuery_def searchQuery_postal_def searchQuery_place_def)

text \<open>
  Claim C9 as stated fails: a call that ends in a failure returns the empty list and
  stores nothing, so the next call with the same query sends a request again and
  returns what the service answers then.
\<close>

theorem geocode_failure_not_cached:
  "fst (geocodeCanadianLocation initialCache ''Ottawa'' Failed) = Own [] \<and>
   geocodeCanadianLocation
     (fst (snd (geocodeCanadianLocation initialCache ''Ottawa'' Failed)))
     ''Ottawa'' (Json [ottawa_item]) =
   (Own [ottawa], initialCache(''Ottawa'' \<mapsto> [ottawa]), [''Ottawa, Canada''])"
  by (simp add: geocodeCanadianLocation_def cityCache_get_initial_Ottawa searchQuery_eq
      List.map_filter_simps toLocation_ottawa Let_def)

lemma geocode_cache_keeps:
  assumes "cityCache query = Some ls"
  shows "fst (snd (geocodeCanadianLocation cityCache query' resp)) query = Some ls"
  using assms
  by (auto simp add: geocodeCanadianLocation_def cityCache_get_def Let_def
      split: option.splits response.splits if_splits)

lemma cache_after_keeps:
  "cityCache query = Some ls \<Longrightarrow> cache_after cityCache calls query = Some ls"
proof (induction calls arbitrary: cityCache)
  case Nil
  then show ?case by simp
next
  case (Cons call calls)
  obtain query' resp where call: "call = (query', resp)" by (cases call)
  from Cons.prems have "fst (snd (geocodeCanadianLocation cityCache query' resp)) query = Some ls"
    by (rule geocode_cache_keeps)
  then show ?case
    unfolding call by (simp add: Cons.IH)
qed

lemma geocode_cache_inherited:
  assumes "cityCache query = None" and "query \<in> set objectPrototypeKeys"
  shows "fst (snd (geocodeCanadianLocation cityCache query' resp)) query = None"
  using assms
  by (auto simp add: geocodeCanadianLocation_def cityCache_get_def Let_def
      split: option.splits response.splits if_splits)

lemma cache_after_inherited:
  "cityCache query = None \<Longrightarrow> query \<in> set objectPrototypeKeys \<Longrightarrow>
   cache_after cityCache calls query = None"
proof (induction calls arbitrary: cityCache)
  case Nil
  then show ?case by simp
next
  case (Cons call calls)
  obtain query' resp where call: "call = (query', resp)" by (cases call)
  from Cons.prems
  have "fst (snd (geocodeCanadianLocation cityCache query' resp)) query = None"
    by (rule geocode_cache_inherited)
  with Cons.prems(2) show ?case
    unfolding call by (simp add: Cons.IH)
qed

text \<open>
  Claim C9, amended. After a call with a query has returned without a failure (it found
  the cache entry, or the service answered with an array), every later call with the
  same query, whatever calls come between, sends no request and returns the same
  result. A call that finds no entry and fails returns the empty list, leaves the
  cache as it was and has sent its request; the call with the same query that follows
  it sends a request again, whatever the service answers then.
\<close>

theorem geocode_repeat_after_success:
  "(cityCache_get cityCache query \<noteq> Undefined \<or> resp \<noteq> Failed \<longrightarrow>
      geocodeCanadianLocation
        (cache_after (fst (snd (geocodeCanadianLocation cityCache query resp))) calls)
        query resp' =
      (fst (geocodeCanadianLocation cityCache query resp),
       cache_after (fst (snd (geocodeCanadianLocation cityCache query resp))) calls,
       [])) \<and>
   (cityCache_get cityCache query = Undefined \<longrightarrow>
      geocodeCanadianLocation cityCache query Failed =
        (Own [], cityCache, [query @ '', Canada''])) \<and>
   (cityCache_get cityCache query = Undefined \<longrightarrow>
      snd (snd (geocodeCanadianLocation
                  (fst (snd (geocodeCanadianLocation cityCache query Failed))) query resp')) =
        [query @ '', Canada''])"
proof (intro conjI impI)
  assume ok: "cityCache_get cityCache query \<noteq> Undefined \<or> resp \<noteq> Failed"
  let ?first = "geocodeCanadianLocation cityCache query resp"
  show "geocodeCanadianLocation (cache_after (fst (snd ?first)) calls) query resp' =
        (fst ?first, cache_after (fst (snd ?first)) calls, [])"
  proof (cases "cityCache_get cityCache query")
    case (Own ls)
    then have "cityCache query = Some ls"
      by (simp add: cityCache_get_def split: option.splits if_splits)
    then have "cache_after cityCache calls query = Some ls"
      by (rule cache_after_keeps)
    with Own show ?thesis
      by (simp add: geocodeCanadianLocation_def cityCache_get_def)
  next
    case Inherited
    then have "cityCache query = None" and "query \<in> set objectPrototypeKeys"
      by (simp_all add: cityCache_get_def split: option.splits if_splits)
    then have "cache_after cityCache calls query = None"
      by (rule cache_after_inherited)
    with Inherited \<open>query \<in> set objectPrototypeKeys\<close> show ?thesis
      by (simp add: geocodeCanadianLocation_def cityCache_get_def)
  next
    case Undefined
    with ok obtain data where resp: "resp = Json data"
      by (cases resp) simp_all
    let ?locations = "List.map_filter toLocation data"
    have "(cityCache(query \<mapsto> ?locations)) query = Some ?locations"
      by simp
    then have "cache_after (cityCache(query \<mapsto> ?locations)) calls query = Some ?locations"
      by (rule cache_after_keeps)
    with Undefined resp show ?thesis
      by (simp add: geocodeCanadianLocation_def cityCache_get_def Let_def)
  qed
next
  assume "cityCache_get cityCache query = Undefined"
  then show "geocodeCanadianLocation cityCache query Failed =
             (Own [], cityCache, [query @ '', Canada''])"
    by (simp add: geocodeCanadianLocation_def searchQuery_eq)
next
  assume "cityCache_get cityCache query = Undefined"
  then show "snd (snd (geocodeCanadianLocation
                  (fst (snd (geocodeCanadianLocation cityCache query Failed))) query resp')) =
             [query @ '', Canada'']"
    by (cases resp') (simp_all add: geocodeCanadianLocation_def searchQuery_eq Let_def)
qed

theorem geocode_repeat_after_success_witness:
  "geocodeCanadianLocation
     (cache_after (initialCache(''Ottawa'' \<mapsto> [ottawa]))
        [(''Toronto'', Failed), (''Ottawa'', Json [])])
     ''Ottawa'' Failed =
   (Own [ottawa],
    cache_after (initialCache(''Ottawa'' \<mapsto> [ottawa]))
      [(''Toronto'', Failed), (''Ottawa'', Json [])],
    []) \<and>
   geocodeCanadianLocation initialCache ''Ottawa'' Failed =
     (Own [], initialCache, [''Ottawa, Canada''])"
proof -
  have first: "geocodeCanadianLocation initialCache ''Ottawa'' (Json [ottawa_item]) =
               (Own [ottawa], initialCache(''Ottawa'' \<mapsto> [ottawa]), [''Ottawa, Canada''])"
    by (simp add: geocodeCanadianLocation_def cityCache_get_initial_Ottawa searchQuery_eq
        List.map_filter_simps toLocation_ottawa Let_def)
  have ok: "cityCache_get initialCache ''Ottawa'' \<noteq> Undefined \<or> Json [ottawa_item] \<noteq> Failed"
    by simp
  show ?thesis
    using geocode_repeat_after_success
      [of initialCache "''Ottawa''" "Json [ottawa_item]"
          "[(''Toronto'', Failed), (''Ottawa'', Json [])]" Failed]
      ok cityCache_get_initial_Ottawa
    by (simp add: first)
qed

section \<open>Properties of the cost-estimate form\<close>

lemma calculateShippingCost_tier:
  assumes "shippingType \<in> {''standard'', ''express'', ''overnight''}"
  shows "\<exists>r d. calculateShippingCost M originLocation destinationLocation w shippingType =
                 Inr r \<and> deliveryDays r = Some d"
  using assms by (auto simp add: calculateShippingCost_def shippingRates_def Let_def)

text \<open>
  Claim C2 as stated fails: a negative weight passes the check of line 303 and the
  estimate is rendered, and a tier that is not in the rate table passes it too and
  ends in an exception, not in an alert.
\<close>

theorem shippingForm_submit_negative_weight:
  "\<not> aborted (shippingForm_submit exact_math toronto_to_montreal (Num (- 5)) ''standard'') \<and>
   shippingForm_submit exact_math toronto_to_montreal (Num 10) ''priority'' =
     Uncaught TypeError"
  by (simp add: shippingForm_submit_def toronto_to_montreal_def toronto_def montreal_def
      truthy_str_def calculateShippingCost_def shippingRates_def objectPrototypeKeys_def Let_def)

text \<open>
  Claim C2, amended. The submission ends in an alert exactly when the origin or the
  destination is not selected, the weight is \<^verbatim>\<open>NaN\<close> or zero, the tier is the empty
  string, or origin and destination have the same id. When none of these holds and
  the tier is one of the three of the rate table, the estimate of
  \<^verbatim>\<open>calculateShippingCost\<close> is rendered.
\<close>

theorem shippingForm_submit_validation:
  "(aborted (shippingForm_submit M sel weight shippingType) \<longleftrightarrow>
      origin sel = None \<or> destination sel = None \<or> weight = NaN \<or> weight = Num 0 \<or>
      shippingType = [] \<or>
      map_option loc_id (origin sel) = map_option loc_id (destination sel)) \<and>
   (origin sel = Some originLocation \<and> destination sel = Some destinationLocation \<and>
    weight = Num w \<and> w \<noteq> 0 \<and> loc_id originLocation \<noteq> loc_id destinationLocation \<and>
    shippingType \<in> {''standard'', ''express'', ''overnight''} \<longrightarrow>
      (\<exists>r. calculateShippingCost M originLocation destinationLocation w shippingType = Inr r \<and>
           shippingForm_submit M sel weight shippingType = Rendered r))"
proof (intro conjI impI)
  show "aborted (shippingForm_submit M sel weight shippingType) \<longleftrightarrow>
      origin sel = None \<or> destination sel = None \<or> weight = NaN \<or> weight = Num 0 \<or>
      shippingType = [] \<or>
      map_option loc_id (origin sel) = map_option loc_id (destination sel)"
    by (cases "origin sel"; cases "destination sel"; cases weight)
       (auto simp add: shippingForm_submit_def truthy_str_def
          split: sum.splits option.splits)
next
  assume a: "origin sel = Some originLocation \<and> destination sel = Some destinationLocation \<and>
    weight = Num w \<and> w \<noteq> 0 \<and> loc_id originLocation \<noteq> loc_id destinationLocation \<and>
    shippingType \<in> {''standard'', ''express'', ''overnight''}"
  then obtain r d where
    r: "calculateShippingCost M originLocation destinationLocation w shippingType = Inr r"
    and d: "deliveryDays r = Some d"
    using calculateShippingCost_tier [of shippingType M originLocation destinationLocation w]
    by blast
  from a have "shippingType \<noteq> []" by auto
  with a r d have "shippingForm_submit M sel weight shippingType = Rendered r"
    by (simp add: shippingForm_submit_def truthy_str_def)
  with r show "\<exists>r. calculateShippingCost M originLocation destinationLocation w shippingType =
                  Inr r \<and>
           shippingForm_submit M sel weight shippingType = Rendered r"
    by blast
qed

theorem shippingForm_submit_validation_witness:
  "aborted (shippingForm_submit exact_math toronto_to_montreal (Num 0) ''standard'') \<and>
   aborted (shippingForm_submit exact_math toronto_to_montreal NaN ''standard'') \<and>
   aborted (shippingForm_submit exact_math toronto_to_montreal (Num 10) []) \<and>
   aborted (shippingForm_submit exact_math (toronto_to_montreal\<lparr>destination := Some toronto\<rparr>)
              (Num 10) ''standard'') \<and>
   shippingForm_submit exact_math toronto_to_montreal (Num 10) ''standard'' =
     Rendered \<lparr>cost = Num (18 + of_int (haversine_km 43.65 (- 79.38) 45.50 (- 73.57)) * 0.65 +
                           10 * 0.15),
               distance = Num (of_int (haversine_km 43.65 (- 79.38) 45.50 (- 73.57))),
               deliveryDays = Some (3, 5)\<rparr>"
proof -
  have calc: "calculateShippingCost exact_math toronto montreal 10 ''standard'' =
     Inr \<lparr>cost = Num (18 + of_int (haversine_km 43.65 (- 79.38) 45.50 (- 73.57)) * 0.65 +
                      10 * 0.15),
          distance = Num (of_int (haversine_km 43.65 (- 79.38) 45.50 (- 73.57))),
          deliveryDays = Some (3, 5)\<rparr>"
    by (simp add: calculateShippingCost_def shippingRates_def Let_def calculateDistance_exact
        exact_math_sel toronto_def montreal_def)
  have sel: "origin toronto_to_montreal = Some toronto"
    "destination toronto_to_montreal = Some montreal"
    "loc_id toronto \<noteq> loc_id montreal"
    by (simp_all add: toronto_to_montreal_def toronto_def montreal_def)
  have w0: "aborted (shippingForm_submit exact_math toronto_to_montreal (Num 0) ''standard'')"
    using shippingForm_submit_validation
      [of exact_math toronto_to_montreal "Num 0" "''standard''"]
    by simp
  have wn: "aborted (shippingForm_submit exact_math toronto_to_montreal NaN ''standard'')"
    using shippingForm_submit_validation
      [of exact_math toronto_to_montreal NaN "''standard''"]
    by simp
  have t0: "aborted (shippingForm_submit exact_math toronto_to_montreal (Num 10) [])"
    using shippingForm_submit_validation [of exact_math toronto_to_montreal "Num 10" "[]"]
    by simp
  have same: "aborted (shippingForm_submit exact_math
                (toronto_to_montreal\<lparr>destination := Some toronto\<rparr>) (Num 10) ''standard'')"
    using shippingForm_submit_validation
      [of exact_math "toronto_to_montreal\<lparr>destination := Some toronto\<rparr>" "Num 10"
          "''standard''"]
    by (simp add: sel)
  have "shippingForm_submit exact_math toronto_to_montreal (Num 10) ''standard'' =
     Rendered \<lparr>cost = Num (18 + of_int (haversine_km 43.65 (- 79.38) 45.50 (- 73.57)) * 0.65 +
                           10 * 0.15),
               distance = Num (of_int (haversine_km 43.65 (- 79.38) 45.50 (- 73.57))),
               deliveryDays = Some (3, 5)\<rparr>"
    using shippingForm_submit_validation
      [of exact_math toronto_to_montreal "Num 10" "''standard''" toronto montreal 10] sel
    by (simp add: calc)
  with w0 wn t0 same show ?thesis by simp
qed

end
